theory Spec2Isabelle
  imports Complex_Main
begin

section \<open>JavaScript numbers and the engine\<close>

text \<open>
  A JavaScript number is an IEEE double: a finite value, an infinity or NaN. The finite
  doubles are a subset of the reals, so a finite number is modelled by its real value;
  the two zeros are not told apart (every zero divisor in the components is a difference
  of equal values or a non-negative integer, hence \<open>+0\<close>).
\<close>

datatype jsnum = Fin real | PosInf | NegInf | NaN

text \<open>
  What the components compute with depends on the engine that runs them, and is taken
  as a parameter:
  \<^item> \<open>rnd\<close> rounds the exact result of an arithmetic operation on finite operands to a
    double (to an infinity on overflow);
  \<^item> \<open>msin\<close>, \<open>mcos\<close>, \<open>msqrt\<close> are \<open>Math.sin\<close>, \<open>Math.cos\<close> and \<open>Math.sqrt\<close>
    on a finite argument (non-negative for the root), \<open>mpow2\<close> is \<open>x ** 2\<close> on a finite
    \<open>x\<close>, and \<open>matan2\<close> is \<open>Math.atan2\<close> on arguments other than NaN;
  \<^item> \<open>maxArgs\<close> is the largest number of arguments that a call may spread; a call
    with more throws a RangeError.
  The cases with an infinity, a NaN or a zero divisor are fixed by the language and are
  written out.
\<close>

record engine =
  rnd :: "real \<Rightarrow> jsnum"
  msin :: "real \<Rightarrow> real"
  mcos :: "real \<Rightarrow> real"
  msqrt :: "real \<Rightarrow> real"
  mpow2 :: "real \<Rightarrow> jsnum"
  matan2 :: "jsnum \<Rightarrow> jsnum \<Rightarrow> jsnum"
  maxArgs :: nat

fun js_neg :: "jsnum \<Rightarrow> jsnum" where
  "js_neg (Fin x) = Fin (- x)"
| "js_neg PosInf = NegInf"
| "js_neg NegInf = PosInf"
| "js_neg NaN = NaN"

fun js_add :: "engine \<Rightarrow> jsnum \<Rightarrow> jsnum \<Rightarrow> jsnum" where
  "js_add eng (Fin x) (Fin y) = rnd eng (x + y)"
| "js_add eng NaN b = NaN"
| "js_add eng a NaN = NaN"
| "js_add eng PosInf NegInf = NaN"
| "js_add eng NegInf PosInf = NaN"
| "js_add eng PosInf b = PosInf"
| "js_add eng a PosInf = PosInf"
| "js_add eng NegInf b = NegInf"
| "js_add eng a NegInf = NegInf"

definition js_sub :: "engine \<Rightarrow> jsnum \<Rightarrow> jsnum \<Rightarrow> jsnum" where
  "js_sub eng a b = js_add eng a (js_neg b)"

fun js_mul :: "engine \<Rightarrow> jsnum \<Rightarrow> jsnum \<Rightarrow> jsnum" where
  "js_mul eng (Fin x) (Fin y) = rnd eng (x * y)"
| "js_mul eng NaN b = NaN"
| "js_mul eng a NaN = NaN"
| "js_mul eng (Fin x) b = (if x = 0 then NaN else if 0 < x then b else js_neg b)"
| "js_mul eng a (Fin y) = (if y = 0 then NaN else if 0 < y then a else js_neg a)"
| "js_mul eng PosInf b = b"
| "js_mul eng NegInf b = js_neg b"

fun js_div :: "engine \<Rightarrow> jsnum \<Rightarrow> jsnum \<Rightarrow> jsnum" where
  "js_div eng (Fin x) (Fin y) =
     (if y \<noteq> 0 then rnd eng (x / y)
      else if 0 < x then PosInf
      else if x < 0 then NegInf
      else NaN)"
| "js_div eng NaN b = NaN"
| "js_div eng a NaN = NaN"
| "js_div eng (Fin x) b = Fin 0"
| "js_div eng a (Fin y) = (if 0 \<le> y then a else js_neg a)"
| "js_div eng a b = NaN"

fun js_sin :: "engine \<Rightarrow> jsnum \<Rightarrow> jsnum" where
  "js_sin eng (Fin x) = Fin (msin eng x)"
| "js_sin eng a = NaN"

fun js_cos :: "engine \<Rightarrow> jsnum \<Rightarrow> jsnum" where
  "js_cos eng (Fin x) = Fin (mcos eng x)"
| "js_cos eng a = NaN"

fun js_sqrt :: "engine \<Rightarrow> jsnum \<Rightarrow> jsnum" where
  "js_sqrt eng (Fin x) = (if x < 0 then NaN else Fin (msqrt eng x))"
| "js_sqrt eng PosInf = PosInf"
| "js_sqrt eng a = NaN"

fun js_pow2 :: "engine \<Rightarrow> jsnum \<Rightarrow> jsnum" where
  "js_pow2 eng (Fin x) = mpow2 eng x"
| "js_pow2 eng NaN = NaN"
| "js_pow2 eng a = PosInf"

definition js_atan2 :: "engine \<Rightarrow> jsnum \<Rightarrow> jsnum \<Rightarrow> jsnum" where
  "js_atan2 eng y x = (if y = NaN \<or> x = NaN then NaN else matan2 eng y x)"

text \<open>The comparisons \<open>>\<close> and \<open>>=\<close> with a finite number; with NaN both are false.\<close>

fun js_gt :: "jsnum \<Rightarrow> real \<Rightarrow> bool" where
  "js_gt (Fin x) y = (y < x)"
| "js_gt PosInf y = True"
| "js_gt NegInf y = False"
| "js_gt NaN y = False"

fun js_ge :: "jsnum \<Rightarrow> real \<Rightarrow> bool" where
  "js_ge (Fin x) y = (y \<le> x)"
| "js_ge PosInf y = True"
| "js_ge NegInf y = False"
| "js_ge NaN y = False"

text \<open>\<open>Math.PI\<close>, the double nearest to \<open>\<pi>\<close>.\<close>

definition Math_PI :: real where
  "Math_PI = 884279719003555 / 281474976710656"

section \<open>InfiniteScroller.vue: the paginated feed loader\<close>

subsection \<open>Types and reactive state\<close>

record MediaItem =
  media_filename :: string

record ContentItem =
  title :: string
  description :: string
  medias :: "MediaItem list option"

text \<open>A value of the \<open>params\<close> object; the object keeps its keys in insertion order.\<close>

datatype pvalue = PNum int | PStr string

type_synonym params = "(string \<times> pvalue) list"

text \<open>
  What the awaited \<open>axios.get\<close> settles to: a response with its body
  (\<open>None\<close> for a body that is null or otherwise falsy) and its \<open>tag\<close> header
  (\<open>None\<close> when the header is absent), or a rejection.
\<close>

datatype response = Success "ContentItem list option" "string option" | Failure string

datatype logentry =
    LogFetching
  | LogReceived nat
  | LogNoMore
  | LogTotal nat
  | LogError string
  | LogScroll
  | LogObserver

text \<open>
  The refs \<open>content\<close>, \<open>nextTag\<close> and \<open>isLoading\<close>, together with what the
  component does to its environment: the requests handed to the HTTP client, in order,
  the number of them not yet settled, and the lines written to the console.
\<close>

record feed =
  content :: "ContentItem list"
  nextTag :: "string option"
  isLoading :: bool
  requests :: "params list"
  inflight :: nat
  console :: "logentry list"

definition init_feed :: feed where
  "init_feed = \<lparr>content = [], nextTag = None, isLoading = False,
                 requests = [], inflight = 0, console = []\<rparr>"

subsection \<open>loadContent\<close>

text \<open>\<open>if (nextTag.value) params.tag = nextTag.value\<close>: null and the empty string are falsy.\<close>

definition build_params :: "string option \<Rightarrow> params" where
  "build_params tag =
     [(''refresh'', PNum 1), (''type'', PNum 0), (''auth'', PNum 0), (''per_page'', PNum 8)]
     @ (case tag of
          None \<Rightarrow> []
        | Some t \<Rightarrow> if t \<noteq> [] then [(''tag'', PStr t)] else [])"

text \<open>
  The part of \<open>loadContent\<close> that runs at the call, up to the \<open>await\<close>: the guard,
  the busy flag, the parameters and the request.
\<close>

definition loadContent :: "feed \<Rightarrow> feed" where
  "loadContent s =
     (if isLoading s \<or> nextTag s = Some [] then s
      else s\<lparr>isLoading := True,
             console := console s @ [LogFetching],
             requests := requests s @ [build_params (nextTag s)],
             inflight := inflight s + 1\<rparr>)"

text \<open>\<open>response.headers["tag"] || null\<close>: an absent or empty header gives null.\<close>

definition header_or_null :: "string option \<Rightarrow> string option" where
  "header_or_null h = (case h of None \<Rightarrow> None | Some t \<Rightarrow> if t \<noteq> [] then Some t else None)"

text \<open>\<open>response.data || []\<close>\<close>

definition data_or_empty :: "ContentItem list option \<Rightarrow> ContentItem list" where
  "data_or_empty d = (case d of None \<Rightarrow> [] | Some xs \<Rightarrow> xs)"

text \<open>
  The rest of \<open>loadContent\<close>, run when the request settles: the \<open>try\<close> body on a
  response, the \<open>catch\<close> on a rejection, and the \<open>finally\<close> in both cases.
  \<open>content.value.push(...newItems)\<close> spreads the body into the arguments of one call:
  with more items than the engine accepts the call throws before anything is pushed,
  and the \<open>catch\<close> logs the error, so neither the list nor the cursor is assigned.
\<close>

definition loadContent_resume :: "engine \<Rightarrow> response \<Rightarrow> feed \<Rightarrow> feed" where
  "loadContent_resume eng r s =
     (case r of
        Success d h \<Rightarrow>
          (let newItems = data_or_empty d;
               s1 = s\<lparr>console := console s @ [LogReceived (length newItems)]\<rparr>
           in if length newItems > 0 \<and> length newItems > maxArgs eng
              then s1\<lparr>console := console s1 @ [LogError ''RangeError''], isLoading := False\<rparr>
              else
                (let s2 = (if length newItems > 0
                           then s1\<lparr>content := content s1 @ newItems,
                                   nextTag := header_or_null h\<rparr>
                           else s1\<lparr>nextTag := None,
                                   console := console s1 @ [LogNoMore]\<rparr>);
                     s3 = s2\<lparr>console := console s2 @ [LogTotal (length (content s2))]\<rparr>
                 in s3\<lparr>isLoading := False\<rparr>))
      | Failure e \<Rightarrow>
          s\<lparr>console := console s @ [LogError e], isLoading := False\<rparr>)"

subsection \<open>The two triggers\<close>

definition handleScroll :: "engine \<Rightarrow> real \<Rightarrow> real \<Rightarrow> real \<Rightarrow> feed \<Rightarrow> feed" where
  "handleScroll eng scrollTop viewportHeight fullHeight s =
     (if isLoading s \<or> nextTag s = None then s
      else
        (let scrolledRatio =
               js_div eng (js_add eng (Fin scrollTop) (Fin viewportHeight)) (Fin fullHeight)
         in if js_ge scrolledRatio (1/2)
            then loadContent (s\<lparr>console := console s @ [LogScroll]\<rparr>)
            else s))"

text \<open>
  The callback of the IntersectionObserver; an entry is its \<open>isIntersecting\<close> flag,
  and \<open>entries[0]?.isIntersecting\<close> is undefined, hence falsy, without a first entry.
\<close>

definition observerCallback :: "bool list \<Rightarrow> feed \<Rightarrow> feed" where
  "observerCallback entries s =
     (let visible = (case entries of [] \<Rightarrow> False | e # _ \<Rightarrow> e)
      in if visible \<and> \<not> isLoading s \<and> nextTag s \<noteq> None
         then loadContent (s\<lparr>console := console s @ [LogObserver]\<rparr>)
         else s)"

definition onMounted :: "feed \<Rightarrow> feed" where
  "onMounted s = loadContent s"

subsection \<open>The event loop\<close>

text \<open>
  One event is handled at a time. A settlement can only arrive for a request that is
  in flight: with none in flight the event cannot occur, and \<open>dispatch\<close> is
  \<open>None\<close>.
\<close>

datatype event =
    Mounted
  | Scroll real real real
  | Intersect "bool list"
  | Settle response

fun dispatch :: "engine \<Rightarrow> feed \<Rightarrow> event \<Rightarrow> feed option" where
  "dispatch eng s Mounted = Some (onMounted s)"
| "dispatch eng s (Scroll scrollTop viewportHeight fullHeight) =
     Some (handleScroll eng scrollTop viewportHeight fullHeight s)"
| "dispatch eng s (Intersect entries) = Some (observerCallback entries s)"
| "dispatch eng s (Settle r) =
     (if inflight s = 0 then None
      else Some (loadContent_resume eng r (s\<lparr>inflight := inflight s - 1\<rparr>)))"

fun run :: "engine \<Rightarrow> feed \<Rightarrow> event list \<Rightarrow> feed option" where
  "run eng s [] = Some s"
| "run eng s (e # es) = (case dispatch eng s e of None \<Rightarrow> None | Some s' \<Rightarrow> run eng s' es)"

fun is_trigger :: "event \<Rightarrow> bool" where
  "is_trigger (Scroll _ _ _) = True"
| "is_trigger (Intersect _) = True"
| "is_trigger _ = False"

text \<open>
  The bodies of the responses that settle during a run and that the engine can spread,
  in arrival order.
\<close>

fun arrived :: "engine \<Rightarrow> event list \<Rightarrow> ContentItem list list" where
  "arrived eng [] = []"
| "arrived eng (Settle (Success d h) # es) =
     (if length (data_or_empty d) \<le> maxArgs eng then data_or_empty d # arrived eng es
      else arrived eng es)"
| "arrived eng (_ # es) = arrived eng es"

section \<open>GpsTracker.vue: the path recorder\<close>

subsection \<open>Types\<close>

record Coordinate =
  lat :: real
  lng :: real
  timestamp :: int
  isManual :: bool

text \<open>The fields of a \<open>GeolocationPosition\<close> that the component reads or writes.\<close>

record GeolocationPosition =
  latitude :: real
  longitude :: real
  pos_timestamp :: int

subsection \<open>The Leaflet map\<close>

text \<open>
  The map object as the component uses it: a view and the layers added to it. A layer
  is an object referred to by the variables of the component, so each one carries an
  identity, and \<open>removeLayer\<close> and \<open>setLatLngs\<close> act on the layer of that identity.
\<close>

datatype icon = DefaultIcon | StartIcon | EndIcon bool | ManualIcon

datatype layer =
    TileLayer
  | Polyline "(real \<times> real) list"
  | Marker "real \<times> real" icon

record leaflet =
  center :: "real \<times> real"
  zoom :: real
  layers :: "(nat \<times> layer) list"
  next_id :: nat

definition addTo :: "layer \<Rightarrow> leaflet \<Rightarrow> leaflet" where
  "addTo l m = m\<lparr>layers := layers m @ [(next_id m, l)], next_id := next_id m + 1\<rparr>"

definition removeLayer :: "nat \<Rightarrow> leaflet \<Rightarrow> leaflet" where
  "removeLayer i m = m\<lparr>layers := filter (\<lambda>(j, l). j \<noteq> i) (layers m)\<rparr>"

definition setLatLngs :: "nat \<Rightarrow> (real \<times> real) list \<Rightarrow> leaflet \<Rightarrow> leaflet" where
  "setLatLngs i pts m =
     m\<lparr>layers := map (\<lambda>(j, l). if j = i then (j, Polyline pts) else (j, l)) (layers m)\<rparr>"

definition setView :: "real \<times> real \<Rightarrow> real \<Rightarrow> leaflet \<Rightarrow> leaflet" where
  "setView c z m = m\<lparr>center := c, zoom := z\<rparr>"

subsection \<open>State\<close>

record gps =
  recordedPath :: "Coordinate list"
  isRecording :: bool
  message :: string
  map_v :: "leaflet option"
  pathLayer :: "nat option"
  watchId :: "nat option"
  startMarker :: "nat option"
  endMarker :: "nat option"
  manualMarkers :: "nat list"

subsection \<open>getDistance\<close>

definition getDistance :: "engine \<Rightarrow> Coordinate \<Rightarrow> Coordinate \<Rightarrow> jsnum" where
  "getDistance eng c1 c2 =
     (let R = Fin 6371000;
          phi1 = js_div eng (js_mul eng (Fin (lat c1)) (Fin Math_PI)) (Fin 180);
          phi2 = js_div eng (js_mul eng (Fin (lat c2)) (Fin Math_PI)) (Fin 180);
          dphi = js_div eng
                   (js_mul eng (js_sub eng (Fin (lat c2)) (Fin (lat c1))) (Fin Math_PI))
                   (Fin 180);
          dlambda = js_div eng
                      (js_mul eng (js_sub eng (Fin (lng c2)) (Fin (lng c1))) (Fin Math_PI))
                      (Fin 180);
          a = js_add eng
                (js_pow2 eng (js_sin eng (js_div eng dphi (Fin 2))))
                (js_mul eng (js_mul eng (js_cos eng phi1) (js_cos eng phi2))
                   (js_pow2 eng (js_sin eng (js_div eng dlambda (Fin 2)))));
          c = js_mul eng (Fin 2)
                (js_atan2 eng (js_sqrt eng a) (js_sqrt eng (js_sub eng (Fin 1) a)))
      in js_mul eng R c)"

subsection \<open>updateMapPath\<close>

text \<open>
  The markers are drawn only for a non-empty path, where its first and last elements
  exist, so the early return on a missing \<open>start\<close> or \<open>end\<close> is never taken.
\<close>

definition remove_opt :: "nat option \<Rightarrow> leaflet \<Rightarrow> leaflet" where
  "remove_opt r m = (case r of None \<Rightarrow> m | Some i \<Rightarrow> removeLayer i m)"

definition draw_markers :: "bool \<Rightarrow> Coordinate list \<Rightarrow> leaflet \<Rightarrow> leaflet" where
  "draw_markers isFinal path m =
     (let start = hd path;
          end = last path;
          m1 = addTo (Marker (lat start, lng start) StartIcon) m;
          m2 = (if length path > 1
                then addTo (Marker (lat end, lng end) (EndIcon isFinal)) m1
                else m1)
      in fold (\<lambda>c. addTo (Marker (lat c, lng c) ManualIcon)) (filter isManual path) m2)"

definition updateMapPath :: "bool \<Rightarrow> gps \<Rightarrow> gps" where
  "updateMapPath isFinal s =
     (case map_v s of
        None \<Rightarrow> s
      | Some m \<Rightarrow>
          (let latlngs = map (\<lambda>c. (lat c, lng c)) (recordedPath s);
               m1 = (case pathLayer s of
                       Some i \<Rightarrow> setLatLngs i latlngs m
                     | None \<Rightarrow> if latlngs \<noteq> [] then addTo (Polyline latlngs) m else m);
               pl = (case pathLayer s of
                       Some i \<Rightarrow> Some i
                     | None \<Rightarrow> if latlngs \<noteq> [] then Some (next_id m) else None);
               m2 = (if latlngs \<noteq> []
                     then setView (last latlngs) (if zoom m1 < 14 then 14 else zoom m1) m1
                     else m1);
               m3 = remove_opt (startMarker s) m2;
               m4 = remove_opt (endMarker s) m3;
               m5 = fold removeLayer (manualMarkers s) m4;
               m6 = (if latlngs \<noteq> [] then draw_markers isFinal (recordedPath s) m5 else m5)
           in s\<lparr>map_v := Some m6, pathLayer := pl,
                 startMarker := None, endMarker := None, manualMarkers := []\<rparr>))"

subsection \<open>recordCoordinate\<close>

text \<open>
  \<open>now\<close> is the value of \<open>Date.now()\<close> at the call. The path is indexed at
  \<open>length - 1\<close>, which is undefined, hence falsy, on an empty path.
\<close>

definition recordCoordinate ::
  "engine \<Rightarrow> int \<Rightarrow> GeolocationPosition \<Rightarrow> bool \<Rightarrow> gps \<Rightarrow> gps" where
  "recordCoordinate eng now pos manual s =
     (let newCoord = \<lparr>lat = latitude pos, lng = longitude pos,
                      timestamp = now, isManual = manual\<rparr>
      in if recordedPath s \<noteq> [] \<and> \<not> manual \<and>
            (let lastCoord = last (recordedPath s);
                 timeDiff = js_div eng
                              (js_sub eng (Fin (real_of_int (timestamp newCoord)))
                                 (Fin (real_of_int (timestamp lastCoord))))
                              (Fin 1000);
                 distanceMeters = getDistance eng lastCoord newCoord;
                 speed = js_div eng distanceMeters timeDiff
             in js_gt speed 50 \<and> js_gt distanceMeters 50)
         then s\<lparr>message := ''Skipped GPS outlier''\<rparr>
         else updateMapPath False
                (s\<lparr>recordedPath := recordedPath s @ [newCoord],
                   message := (if manual then ''Manual marker dropped'' else ''Path recorded'')\<rparr>))"

subsection \<open>Button handlers\<close>

text \<open>
  \<open>geo\<close> is \<open>None\<close> when \<open>navigator.geolocation\<close> is missing, and otherwise the
  identifier that \<open>watchPosition\<close> returns.
\<close>

definition startTracking :: "nat option \<Rightarrow> gps \<Rightarrow> gps" where
  "startTracking geo s =
     (if isRecording s then s
      else
        (let s1 = s\<lparr>recordedPath := []\<rparr>;
             s2 = (case pathLayer s1 of
                     Some i \<Rightarrow> s1\<lparr>map_v := map_option (removeLayer i) (map_v s1),
                                 pathLayer := None\<rparr>
                   | None \<Rightarrow> s1)
         in case geo of
              Some wid \<Rightarrow> s2\<lparr>watchId := Some wid, isRecording := True,
                              message := ''Tracking started. Recording path...''\<rparr>
            | None \<Rightarrow> s2\<lparr>message := ''Geolocation not supported by this browser.''\<rparr>))"

text \<open>
  The second component of the result tells whether a one-shot position query was
  issued; its answer arrives later, as a call of \<open>recordCoordinate\<close> with the manual flag.
\<close>

definition dropMarker :: "engine \<Rightarrow> int \<Rightarrow> gps \<Rightarrow> gps \<times> bool" where
  "dropMarker eng now s =
     (if \<not> isRecording s
      then (s\<lparr>message := ''Start tracking first to drop a marker.''\<rparr>, False)
      else if recordedPath s \<noteq> []
      then (let l = last (recordedPath s)
            in (recordCoordinate eng now
                  \<lparr>latitude = lat l, longitude = lng l, pos_timestamp = now\<rparr> True s, False))
      else (s, True))"

text \<open>The sets of layer identities on the map of a state.\<close>

definition layer_ids :: "gps \<Rightarrow> nat set" where
  "layer_ids s = (case map_v s of None \<Rightarrow> {} | Some m \<Rightarrow> fst ` set (layers m))"

definition polylines :: "gps \<Rightarrow> (nat \<times> layer) list" where
  "polylines s =
     (case map_v s of
        None \<Rightarrow> []
      | Some m \<Rightarrow> filter (\<lambda>(j, l). case l of Polyline _ \<Rightarrow> True | _ \<Rightarrow> False) (layers m))"

section \<open>Auxiliary definitions\<close>

definition busy_inv :: "feed \<Rightarrow> bool" where
  "busy_inv s = (inflight s = (if isLoading s then 1 else 0) \<and> nextTag s \<noteq> Some [])"

text \<open>
  An engine for the examples: its arithmetic and its functions are exact, and a call
  spreads at most 65535 arguments.
\<close>

definition atan2 :: "real \<Rightarrow> real \<Rightarrow> real" where
  "atan2 y x =
     (if 0 < x then arctan (y / x)
      else if x < 0 then (if 0 \<le> y then arctan (y / x) + pi else arctan (y / x) - pi)
      else if 0 < y then pi / 2
      else if y < 0 then - (pi / 2)
      else 0)"

definition exact_engine :: engine where
  "exact_engine =
     \<lparr>rnd = Fin, msin = sin, mcos = cos, msqrt = sqrt, mpow2 = (\<lambda>x. Fin (x\<^sup>2)),
      matan2 = (\<lambda>y x. case (y, x) of (Fin a, Fin b) \<Rightarrow> Fin (atan2 a b) | _ \<Rightarrow> NaN),
      maxArgs = 65535\<rparr>"

definition item_a :: ContentItem where
  "item_a = \<lparr>title = ''Morning walk'', description = ''Two dogs'', medias = None\<rparr>"

definition item_b :: ContentItem where
  "item_b = \<lparr>title = ''Cat sitting'', description = ''One cat'',
             medias = Some [\<lparr>media_filename = ''cat.jpg''\<rparr>]\<rparr>"

definition feed_loading :: feed where
  "feed_loading = \<lparr>content = [], nextTag = None, isLoading = True,
                    requests = [build_params None], inflight = 1, console = [LogFetching]\<rparr>"

definition feed_exhausted :: feed where
  "feed_exhausted = \<lparr>content = [item_a], nextTag = None, isLoading = False,
                      requests = [build_params None], inflight = 0,
                      console = [LogFetching, LogReceived 1, LogTotal 1]\<rparr>"

definition feed_page1 :: feed where
  "feed_page1 = \<lparr>content = [item_a, item_b], nextTag = Some ''c1'', isLoading = False,
                  requests = [build_params None], inflight = 0,
                  console = [LogFetching, LogReceived 2, LogTotal 2]\<rparr>"

definition origin :: Coordinate where
  "origin = \<lparr>lat = 0, lng = 0, timestamp = 0, isManual = False\<rparr>"

definition gps_one :: gps where
  "gps_one =
     \<lparr>recordedPath = [origin], isRecording = True, message = ''Path recorded'',
      map_v = Some \<lparr>center = (0, 0), zoom = 14,
                     layers = [(0, TileLayer), (1, Polyline [(0, 0)]),
                               (2, Marker (0, 0) StartIcon)],
                     next_id = 3\<rparr>,
      pathLayer = Some 1, watchId = Some 7,
      startMarker = None, endMarker = None, manualMarkers = []\<rparr>"

definition gps_idle :: gps where
  "gps_idle = gps_one\<lparr>isRecording := False, watchId := None\<rparr>"

text \<open>
  A position on the meridian of \<open>origin\<close> whose distance from it, computed exactly
  with the program's formula, is \<open>m\<close> metres.
\<close>

definition north_of_origin :: "real \<Rightarrow> GeolocationPosition" where
  "north_of_origin m =
     \<lparr>latitude = 180 * m / (6371000 * Math_PI), longitude = 0, pos_timestamp = 0\<rparr>"

section \<open>Properties\<close>

lemma header_or_null_nonempty: "header_or_null h \<noteq> Some []"
  by (simp add: header_or_null_def split: option.split)

lemma busy_inv_init: "busy_inv init_feed"
  by (simp add: busy_inv_def init_feed_def)

lemma busy_inv_loadContent: "busy_inv s \<Longrightarrow> busy_inv (loadContent s)"
  by (cases "isLoading s") (simp_all add: busy_inv_def loadContent_def)

lemma busy_inv_console: "busy_inv (s\<lparr>console := c\<rparr>) = busy_inv s"
  by (simp add: busy_inv_def)

lemma busy_inv_resume:
  "busy_inv s \<Longrightarrow> inflight s \<noteq> 0 \<Longrightarrow>
   busy_inv (loadContent_resume eng r (s\<lparr>inflight := inflight s - 1\<rparr>))"
  by (cases r; cases "isLoading s")
     (simp_all add: busy_inv_def loadContent_resume_def Let_def header_or_null_nonempty)

lemma busy_inv_dispatch: "busy_inv s \<Longrightarrow> dispatch eng s e = Some s' \<Longrightarrow> busy_inv s'"
proof (cases e)
  case Mounted
  assume "busy_inv s" "dispatch eng s e = Some s'"
  with Mounted show ?thesis by (auto simp: onMounted_def busy_inv_loadContent)
next
  case (Scroll a b c)
  assume "busy_inv s" "dispatch eng s e = Some s'"
  with Scroll show ?thesis
    by (auto simp: handleScroll_def Let_def busy_inv_loadContent busy_inv_console
             split: if_splits)
next
  case (Intersect en)
  assume "busy_inv s" "dispatch eng s e = Some s'"
  with Intersect show ?thesis
    by (auto simp: observerCallback_def Let_def busy_inv_loadContent busy_inv_console
             split: if_splits)
next
  case (Settle r)
  assume "busy_inv s" "dispatch eng s e = Some s'"
  with Settle show ?thesis
    using busy_inv_resume [of s eng r] by (auto split: if_splits)
qed

lemma busy_inv_run: "busy_inv s \<Longrightarrow> run eng s es = Some s' \<Longrightarrow> busy_inv s'"
proof (induction es arbitrary: s)
  case Nil
  then show ?case by simp
next
  case (Cons e es)
  then show ?case by (auto split: option.splits dest: busy_inv_dispatch)
qed

lemma quiet_dispatch:
  assumes "nextTag t = None" "inflight t = 0" "e \<noteq> Mounted" "dispatch eng t e = Some t'"
  shows "t' = t"
  using assms by (cases e) (auto simp: handleScroll_def observerCallback_def Let_def)

lemma quiet_run:
  assumes "nextTag t = None" "inflight t = 0" "Mounted \<notin> set es" "run eng t es = Some t'"
  shows "t' = t"
  using assms
proof (induction es)
  case Nil
  then show ?case by simp
next
  case (Cons e es)
  from Cons.prems obtain u where u: "dispatch eng t e = Some u" and r: "run eng u es = Some t'"
    by (auto split: option.splits)
  from Cons.prems have "e \<noteq> Mounted" by auto
  with Cons.prems(1,2) have "u = t" using u by (rule quiet_dispatch)
  with Cons r show ?case by simp
qed

lemma trigger_refused:
  "nextTag t = None \<Longrightarrow> is_trigger e \<Longrightarrow> dispatch eng t e = Some t"
  by (cases e) (auto simp: handleScroll_def observerCallback_def Let_def)

lemma triggers_refused:
  "nextTag t = None \<Longrightarrow> \<forall>e \<in> set es. is_trigger e \<Longrightarrow> run eng t es = Some t"
  by (induction es) (auto simp: trigger_refused)

lemma resume_not_loading: "\<not> isLoading (loadContent_resume eng r s)"
  by (cases r) (simp_all add: loadContent_resume_def Let_def)

text \<open>
  Claim C1. Once a response has left the cursor at null, no further request is issued.
  With the cursor at null both triggers return at once, so any sequence of scroll and
  intersection events leaves the whole state as it is; and on every run from the initial
  state, after a settlement that leaves the cursor at null, no sequence of later events
  (the mount hook, which runs once at the start, aside) adds to the list of issued
  requests. This holds on every engine.
\<close>

theorem no_fetch_after_exhaustion:
  assumes reach: "run eng init_feed es1 = Some s0"
    and settle: "dispatch eng s0 (Settle r) = Some s"
    and none: "nextTag s = None"
  shows "((\<forall>e \<in> set es2. is_trigger e) \<longrightarrow> run eng s es2 = Some s) \<and>
         (Mounted \<notin> set es2 \<longrightarrow> run eng s es2 = Some s' \<longrightarrow> requests s' = requests s)"
proof -
  have "busy_inv s0" using busy_inv_run [OF busy_inv_init reach] .
  then have inv: "busy_inv s" using settle by (rule busy_inv_dispatch)
  from settle have "\<not> isLoading s"
    by (auto simp: resume_not_loading split: if_splits)
  with inv have idle: "inflight s = 0" by (simp add: busy_inv_def)
  have "Mounted \<notin> set es2 \<Longrightarrow> run eng s es2 = Some s' \<Longrightarrow> s' = s"
    using quiet_run [OF none idle] .
  then show ?thesis using triggers_refused [OF none] by blast
qed

theorem no_fetch_after_exhaustion_witness:
  "run exact_engine init_feed [Mounted] = Some feed_loading \<and>
   dispatch exact_engine feed_loading (Settle (Success (Some [item_a]) None))
     = Some feed_exhausted \<and>
   nextTag feed_exhausted = None \<and>
   run exact_engine feed_exhausted [Scroll 0 800 1600, Intersect [True], Scroll 800 800 1600]
     = Some feed_exhausted \<and>
   requests feed_exhausted = [build_params None]"
proof -
  have a: "run exact_engine init_feed [Mounted] = Some feed_loading"
    by (simp add: init_feed_def feed_loading_def onMounted_def loadContent_def)
  have b: "dispatch exact_engine feed_loading (Settle (Success (Some [item_a]) None))
             = Some feed_exhausted"
    by (simp add: feed_loading_def feed_exhausted_def loadContent_resume_def
        data_or_empty_def header_or_null_def Let_def exact_engine_def)
  have c: "nextTag feed_exhausted = None" by (simp add: feed_exhausted_def)
  have d: "\<forall>e \<in> set [Scroll 0 800 1600, Intersect [True], Scroll 800 800 1600]. is_trigger e"
    by simp
  from no_fetch_after_exhaustion [OF a b c, of "[Scroll 0 800 1600, Intersect [True], Scroll 800 800 1600]"] d
  have "run exact_engine feed_exhausted [Scroll 0 800 1600, Intersect [True], Scroll 800 800 1600]
     = Some feed_exhausted" by blast
  with a b c show ?thesis by (simp add: feed_exhausted_def)
qed

lemma resume_oversized:
  assumes "maxArgs eng < length xs"
  shows "loadContent_resume eng (Success (Some xs) h) s =
           s\<lparr>console := console s @ [LogReceived (length xs), LogError ''RangeError''],
             isLoading := False\<rparr>"
proof -
  from assms have "xs \<noteq> []" by auto
  with assms show ?thesis
    by (simp add: loadContent_resume_def data_or_empty_def Let_def)
qed

lemma dispatch_content:
  "dispatch eng s e = Some s' \<Longrightarrow> content s' = content s @ concat (arrived eng [e])"
proof (cases e)
  case (Settle r)
  assume "dispatch eng s e = Some s'"
  with Settle show ?thesis
    by (cases r) (auto simp: loadContent_resume_def Let_def split: if_splits)
qed (auto simp: onMounted_def handleScroll_def observerCallback_def Let_def loadContent_def)

lemma arrived_Cons: "arrived eng (e # es) = arrived eng [e] @ arrived eng es"
proof (cases e)
  case (Settle r)
  then show ?thesis by (cases r) simp_all
qed simp_all

lemma run_content:
  "run eng s es = Some s' \<Longrightarrow> content s' = content s @ concat (arrived eng es)"
proof (induction es arbitrary: s)
  case Nil
  then show ?case by simp
next
  case (Cons e es)
  from Cons.prems obtain t where t: "dispatch eng s e = Some t" and r: "run eng t es = Some s'"
    by (auto split: option.splits)
  have "content s' = content t @ concat (arrived eng es)"
    using Cons.IH [OF r] .
  also have "content t = content s @ concat (arrived eng [e])"
    using dispatch_content [OF t] .
  finally show ?case
    by (subst arrived_Cons) simp
qed

text \<open>
  Claim C2. The item list is not always the concatenation of the non-empty response
  bodies: a body with more items than one call can spread is lost. On an engine that
  spreads at most 65535 arguments, a successful response of 70000 items leaves the item
  list empty and the cursor at null, and the console shows the error that the catch
  block logged.
\<close>

theorem oversized_body_not_appended:
  "length (replicate 70000 item_a) = 70000 \<and> maxArgs exact_engine = 65535 \<and>
   content (loadContent_resume exact_engine
              (Success (Some (replicate 70000 item_a)) (Some ''c1'')) feed_loading) = [] \<and>
   nextTag (loadContent_resume exact_engine
              (Success (Some (replicate 70000 item_a)) (Some ''c1'')) feed_loading) = None \<and>
   console (loadContent_resume exact_engine
              (Success (Some (replicate 70000 item_a)) (Some ''c1'')) feed_loading)
     = [LogFetching, LogReceived 70000, LogError ''RangeError'']"
proof -
  have "maxArgs exact_engine < length (replicate 70000 item_a)"
    by (simp add: exact_engine_def)
  then show ?thesis
    by (simp add: resume_oversized) (simp add: feed_loading_def exact_engine_def)
qed

text \<open>
  Claim C3. As amended: after a response with an empty body the cursor is null, whatever
  the header. After a response with a non-empty body that the engine can spread into one
  call, the cursor is the value of the tag header when the header is present and not the
  empty string, and null when the header is absent or empty.
\<close>

theorem cursor_after_response:
  "(data_or_empty d = [] \<longrightarrow>
      nextTag (loadContent_resume eng (Success d h) s) = None) \<and>
   (data_or_empty d \<noteq> [] \<longrightarrow> length (data_or_empty d) \<le> maxArgs eng \<longrightarrow>
      nextTag (loadContent_resume eng (Success d h) s) =
        (case h of None \<Rightarrow> None | Some t \<Rightarrow> if t \<noteq> [] then Some t else None))"
  by (simp add: loadContent_resume_def Let_def header_or_null_def)

theorem cursor_after_response_witness:
  "data_or_empty (Some [item_a]) \<noteq> [] \<and>
   length (data_or_empty (Some [item_a])) \<le> maxArgs exact_engine \<and>
   nextTag (loadContent_resume exact_engine (Success (Some [item_a]) (Some ''c1'')) feed_loading)
     = Some ''c1'' \<and>
   nextTag (loadContent_resume exact_engine (Success (Some [item_a]) None) feed_page1) = None \<and>
   nextTag (loadContent_resume exact_engine (Success (Some [item_a]) (Some [])) feed_page1)
     = None \<and>
   data_or_empty (Some []) = [] \<and>
   nextTag (loadContent_resume exact_engine (Success (Some []) (Some ''c1'')) feed_page1) = None"
proof -
  have h: "data_or_empty (Some [item_a]) \<noteq> []"
    "length (data_or_empty (Some [item_a])) \<le> maxArgs exact_engine"
    "data_or_empty (Some []) = []"
    by (simp_all add: data_or_empty_def exact_engine_def)
  from cursor_after_response [of "Some [item_a]" exact_engine "Some ''c1''" feed_loading]
    cursor_after_response [of "Some [item_a]" exact_engine None feed_page1]
    cursor_after_response [of "Some [item_a]" exact_engine "Some []" feed_page1]
    cursor_after_response [of "Some []" exact_engine "Some ''c1''" feed_page1] h
  show ?thesis by simp
qed

theorem empty_header_counterexample:
  "data_or_empty (Some [item_a]) \<noteq> [] \<and>
   length (data_or_empty (Some [item_a])) \<le> maxArgs exact_engine \<and>
   nextTag (loadContent_resume exact_engine (Success (Some [item_a]) (Some [])) feed_loading)
     \<noteq> Some []"
  by (simp add: data_or_empty_def loadContent_resume_def header_or_null_def Let_def
      exact_engine_def)

text \<open>
  Claim C6. When the request is rejected, the continuation logs the error and clears the
  busy flag, and it changes neither the item list, nor the cursor, nor the list of
  issued requests. For a whole attempt from an idle state: exactly one request was
  issued, and the item list and the cursor are those from before the attempt.
\<close>

theorem transport_failure:
  "content (loadContent_resume eng (Failure e) t) = content t \<and>
   nextTag (loadContent_resume eng (Failure e) t) = nextTag t \<and>
   requests (loadContent_resume eng (Failure e) t) = requests t \<and>
   inflight (loadContent_resume eng (Failure e) t) = inflight t \<and>
   console (loadContent_resume eng (Failure e) t) = console t @ [LogError e] \<and>
   \<not> isLoading (loadContent_resume eng (Failure e) t) \<and>
   (\<not> isLoading s \<longrightarrow> nextTag s \<noteq> Some [] \<longrightarrow>
      dispatch eng (loadContent s) (Settle (Failure e)) \<noteq> None \<and>
      (dispatch eng (loadContent s) (Settle (Failure e)) = Some s2 \<longrightarrow>
         content s2 = content s \<and> nextTag s2 = nextTag s \<and> \<not> isLoading s2 \<and>
         inflight s2 = inflight s \<and>
         requests s2 = requests s @ [build_params (nextTag s)] \<and>
         console s2 = console s @ [LogFetching, LogError e]))"
  by (auto simp: loadContent_resume_def loadContent_def)

theorem transport_failure_witness:
  "\<not> isLoading feed_page1 \<and> nextTag feed_page1 \<noteq> Some [] \<and>
   dispatch exact_engine (loadContent feed_page1) (Settle (Failure ''Network Error'')) =
     Some (feed_page1\<lparr>requests := [build_params None, build_params (Some ''c1'')],
                      console := [LogFetching, LogReceived 2, LogTotal 2, LogFetching,
                                  LogError ''Network Error'']\<rparr>) \<and>
   content feed_page1 = [item_a, item_b] \<and> nextTag feed_page1 = Some ''c1''"
proof -
  have d: "dispatch exact_engine (loadContent feed_page1) (Settle (Failure ''Network Error'')) =
     Some (feed_page1\<lparr>requests := [build_params None, build_params (Some ''c1'')],
                      console := [LogFetching, LogReceived 2, LogTotal 2, LogFetching,
                                  LogError ''Network Error'']\<rparr>)"
    by (simp add: feed_page1_def loadContent_def loadContent_resume_def)
  have h: "\<not> isLoading feed_page1" "nextTag feed_page1 \<noteq> Some []"
    by (simp_all add: feed_page1_def)
  from transport_failure [of exact_engine "''Network Error''" feed_page1 feed_page1
      "feed_page1\<lparr>requests := [build_params None, build_params (Some ''c1'')],
                      console := [LogFetching, LogReceived 2, LogTotal 2, LogFetching,
                                  LogError ''Network Error'']\<rparr>"] h d
  have "content (feed_page1\<lparr>requests := [build_params None, build_params (Some ''c1'')],
                      console := [LogFetching, LogReceived 2, LogTotal 2, LogFetching,
                                  LogError ''Network Error'']\<rparr>) = content feed_page1"
    by blast
  with h d show ?thesis by (simp add: feed_page1_def)
qed

lemma busy_refuses:
  assumes "isLoading s"
  shows "loadContent s = s" "onMounted s = s" "handleScroll eng a b c s = s"
    "observerCallback en s = s"
  using assms by (simp_all add: loadContent_def onMounted_def handleScroll_def
      observerCallback_def Let_def)

lemma loadContent_requests:
  "requests (loadContent s) =
     requests s @ (if isLoading s \<or> nextTag s = Some [] then [] else [build_params (nextTag s)])"
  by (simp add: loadContent_def)

lemma loadContent_issue:
  assumes "requests (loadContent s) \<noteq> requests s"
  shows "\<not> isLoading s \<and> isLoading (loadContent s) \<and>
         inflight (loadContent s) = inflight s + 1 \<and>
         requests (loadContent s) = requests s @ [build_params (nextTag s)]"
  using assms by (auto simp: loadContent_def split: if_splits)

lemma dispatch_issue:
  assumes "dispatch eng s e = Some s'" "requests s' \<noteq> requests s"
  shows "\<not> isLoading s \<and> isLoading s' \<and> inflight s' = inflight s + 1 \<and>
         requests s' = requests s @ [build_params (nextTag s)]"
proof (cases e)
  case Mounted
  with assms show ?thesis using loadContent_issue [of s] by (simp add: onMounted_def)
next
  case (Scroll a b c)
  with assms show ?thesis
    using loadContent_issue [of "s\<lparr>console := console s @ [LogScroll]\<rparr>"]
    by (auto simp: handleScroll_def Let_def split: if_splits)
next
  case (Intersect en)
  with assms show ?thesis
    using loadContent_issue [of "s\<lparr>console := console s @ [LogObserver]\<rparr>"]
    by (auto simp: observerCallback_def Let_def split: if_splits)
next
  case (Settle r)
  with assms show ?thesis
    by (cases r) (auto simp: loadContent_resume_def Let_def split: if_splits)
qed

lemma dispatch_clears:
  assumes "dispatch eng s e = Some s'" "isLoading s" "\<not> isLoading s'"
  shows "\<exists>r. e = Settle r"
  using assms by (cases e) (auto simp: busy_refuses)

text \<open>
  Claim C7. In every state reachable from the initial one at most one request is in
  flight, and the busy flag is set exactly when one is. While the flag is set, a direct
  call of the fetch, a scroll event and an intersection event all leave the state
  unchanged. A step that issues a request starts with the flag clear and nothing in
  flight and ends with the flag set and one request in flight; the flag is cleared only
  by a settlement.
\<close>

theorem single_flight:
  assumes "run eng init_feed es = Some s"
  shows "inflight s \<le> 1 \<and> (isLoading s \<longleftrightarrow> inflight s = 1) \<and>
         (isLoading s \<longrightarrow>
            loadContent s = s \<and> handleScroll eng a b c s = s \<and> observerCallback en s = s) \<and>
         (dispatch eng s e = Some s' \<longrightarrow> requests s' \<noteq> requests s \<longrightarrow>
            \<not> isLoading s \<and> inflight s = 0 \<and> isLoading s' \<and> inflight s' = 1 \<and>
            requests s' = requests s @ [build_params (nextTag s)]) \<and>
         (dispatch eng s e = Some s' \<longrightarrow> isLoading s \<longrightarrow> \<not> isLoading s' \<longrightarrow>
            (\<exists>r. e = Settle r))"
proof -
  have inv: "busy_inv s" using busy_inv_run [OF busy_inv_init assms] .
  then have 1: "inflight s \<le> 1 \<and> (isLoading s \<longleftrightarrow> inflight s = 1)"
    by (simp add: busy_inv_def)
  have 2: "isLoading s \<longrightarrow>
            loadContent s = s \<and> handleScroll eng a b c s = s \<and> observerCallback en s = s"
    by (simp add: busy_refuses)
  have 3: "dispatch eng s e = Some s' \<longrightarrow> requests s' \<noteq> requests s \<longrightarrow>
            \<not> isLoading s \<and> inflight s = 0 \<and> isLoading s' \<and> inflight s' = 1 \<and>
            requests s' = requests s @ [build_params (nextTag s)]"
    using dispatch_issue [of eng s e s'] inv by (auto simp: busy_inv_def)
  have 4: "dispatch eng s e = Some s' \<longrightarrow> isLoading s \<longrightarrow> \<not> isLoading s' \<longrightarrow>
            (\<exists>r. e = Settle r)"
    using dispatch_clears [of eng s e s'] by blast
  from 1 2 3 4 show ?thesis by blast
qed

theorem single_flight_witness:
  "run exact_engine init_feed [Mounted, Scroll 800 800 1600, Intersect [True], Mounted]
     = Some feed_loading \<and>
   inflight feed_loading = 1 \<and> isLoading feed_loading \<and>
   loadContent feed_loading = feed_loading \<and>
   handleScroll exact_engine 800 800 1600 feed_loading = feed_loading \<and>
   observerCallback [True] feed_loading = feed_loading \<and>
   requests feed_loading = [build_params None]"
proof -
  have r: "run exact_engine init_feed [Mounted, Scroll 800 800 1600, Intersect [True], Mounted]
             = Some feed_loading"
    by (simp add: init_feed_def feed_loading_def onMounted_def loadContent_def
        handleScroll_def observerCallback_def)
  have l: "isLoading feed_loading" by (simp add: feed_loading_def)
  from single_flight [OF r, of 800 800 1600 "[True]"] l
  have "inflight feed_loading = 1 \<and> loadContent feed_loading = feed_loading \<and>
        handleScroll exact_engine 800 800 1600 feed_loading = feed_loading \<and>
        observerCallback [True] feed_loading = feed_loading"
    by blast
  with r l show ?thesis by (simp add: feed_loading_def)
qed

text \<open>
  Claim C8. Every request that the fetch issues carries refresh=1, type=0, auth=0 and
  per_page=8; the tag parameter is absent when the cursor is null and is the cursor
  otherwise. After a response of 8 items with the header c1, on an engine that can
  spread 8 arguments, the next request is the one with tag=c1.
\<close>

theorem request_params:
  "requests (loadContent s) =
     requests s @ (if isLoading s \<or> nextTag s = Some [] then [] else [build_params (nextTag s)]) \<and>
   map_of (build_params c) ''refresh'' = Some (PNum 1) \<and>
   map_of (build_params c) ''type'' = Some (PNum 0) \<and>
   map_of (build_params c) ''auth'' = Some (PNum 0) \<and>
   map_of (build_params c) ''per_page'' = Some (PNum 8) \<and>
   (c \<noteq> Some [] \<longrightarrow> map_of (build_params c) ''tag'' = map_option PStr c) \<and>
   (length items = 8 \<longrightarrow> 8 \<le> maxArgs eng \<longrightarrow>
      last (requests (loadContent
              (loadContent_resume eng (Success (Some items) (Some ''c1'')) s)))
        = build_params (Some ''c1''))"
proof -
  have "length items = 8 \<Longrightarrow> items \<noteq> []" by auto
  then show ?thesis
    by (auto simp: loadContent_requests build_params_def loadContent_resume_def Let_def
        header_or_null_def data_or_empty_def loadContent_def
        split: option.splits)
qed

theorem request_params_witness:
  "length (replicate 8 item_a) = 8 \<and> 8 \<le> maxArgs exact_engine \<and>
   map_of (build_params None) ''tag'' = None \<and>
   map_of (build_params (Some ''c1'')) ''tag'' = Some (PStr ''c1'') \<and>
   map_of (build_params (Some ''c1'')) ''per_page'' = Some (PNum 8) \<and>
   last (requests (loadContent
      (loadContent_resume exact_engine
         (Success (Some (replicate 8 item_a)) (Some ''c1'')) feed_loading)))
     = build_params (Some ''c1'') \<and>
   map_option (map (\<lambda>p. map_of p ''tag'') \<circ> requests)
     (run exact_engine init_feed [Mounted,
        Settle (Success (Some (replicate 8 item_a)) (Some ''c1'')),
        Scroll 0 800 1600])
     = Some [None, Some (PStr ''c1'')]"
proof -
  have l: "length (replicate 8 item_a) = 8" "8 \<le> maxArgs exact_engine"
    by (simp_all add: exact_engine_def)
  have n: "None \<noteq> Some ([]::string)" "Some ''c1'' \<noteq> Some []" by simp_all
  have sc: "map_option (map (\<lambda>p. map_of p ''tag'') \<circ> requests)
     (run exact_engine init_feed [Mounted,
        Settle (Success (Some (replicate 8 item_a)) (Some ''c1'')),
        Scroll 0 800 1600])
     = Some [None, Some (PStr ''c1'')]"
    by (simp add: init_feed_def onMounted_def loadContent_def loadContent_resume_def
        data_or_empty_def header_or_null_def Let_def handleScroll_def exact_engine_def
        build_params_def)
  from request_params [of feed_loading "Some ''c1''" "replicate 8 item_a" exact_engine]
    request_params [of feed_loading None "replicate 8 item_a" exact_engine] l n sc
  show ?thesis by simp
qed

lemma reach_cursor: "run eng init_feed es = Some s \<Longrightarrow> nextTag s \<noteq> Some []"
  using busy_inv_run [OF busy_inv_init] by (simp add: busy_inv_def)

text \<open>
  Claim C10. In every reachable state the cursor is not the empty string, so the guard
  of the fetch returns early exactly when the busy flag is set. With the flag clear and
  the cursor at null, a direct call of the fetch does issue a request, while the scroll
  handler and the observer callback do not.
\<close>

theorem cursor_never_empty:
  assumes "run eng init_feed es = Some s"
  shows "nextTag s \<noteq> Some [] \<and>
         (loadContent s = s \<longleftrightarrow> isLoading s) \<and>
         (nextTag s = None \<longrightarrow> \<not> isLoading s \<longrightarrow>
            requests (loadContent s) = requests s @ [build_params None] \<and>
            handleScroll eng a b c s = s \<and> observerCallback en s = s)"
proof -
  have 1: "nextTag s \<noteq> Some []" using assms by (rule reach_cursor)
  have 2: "loadContent s = s \<longleftrightarrow> isLoading s"
  proof
    assume "loadContent s = s"
    then have "isLoading (loadContent s) = isLoading s" by simp
    with 1 show "isLoading s" by (simp add: loadContent_def split: if_splits)
  next
    assume "isLoading s"
    then show "loadContent s = s" by (simp add: loadContent_def)
  qed
  have 3: "nextTag s = None \<longrightarrow> \<not> isLoading s \<longrightarrow>
            requests (loadContent s) = requests s @ [build_params None] \<and>
            handleScroll eng a b c s = s \<and> observerCallback en s = s"
    by (simp add: loadContent_def handleScroll_def observerCallback_def Let_def)
  from 1 2 3 show ?thesis by blast
qed

theorem cursor_never_empty_witness:
  "run exact_engine init_feed
     [Mounted, Settle (Success (Some [item_a]) (Some []))] = Some feed_exhausted \<and>
   nextTag feed_exhausted = None \<and> \<not> isLoading feed_exhausted \<and>
   loadContent feed_exhausted \<noteq> feed_exhausted \<and>
   requests (loadContent feed_exhausted) = [build_params None, build_params None] \<and>
   handleScroll exact_engine 800 800 1600 feed_exhausted = feed_exhausted \<and>
   observerCallback [True] feed_exhausted = feed_exhausted"
proof -
  have r: "run exact_engine init_feed [Mounted, Settle (Success (Some [item_a]) (Some []))]
             = Some feed_exhausted"
    by (simp add: init_feed_def feed_exhausted_def onMounted_def loadContent_def
        loadContent_resume_def data_or_empty_def header_or_null_def Let_def exact_engine_def)
  have h: "nextTag feed_exhausted = None" "\<not> isLoading feed_exhausted"
    by (simp_all add: feed_exhausted_def)
  from cursor_never_empty [OF r, of 800 800 1600 "[True]"] h
  have "loadContent feed_exhausted \<noteq> feed_exhausted \<and>
        requests (loadContent feed_exhausted) = requests feed_exhausted @ [build_params None] \<and>
        handleScroll exact_engine 800 800 1600 feed_exhausted = feed_exhausted \<and>
        observerCallback [True] feed_exhausted = feed_exhausted"
    by blast
  with r h show ?thesis by (simp add: feed_exhausted_def)
qed

lemma updateMapPath_path [simp]: "recordedPath (updateMapPath f s) = recordedPath s"
  by (simp add: updateMapPath_def Let_def split: option.split)

lemma updateMapPath_message [simp]: "message (updateMapPath f s) = message s"
  by (simp add: updateMapPath_def Let_def split: option.split)

lemma exact_engine_simps [simp]:
  "rnd exact_engine = Fin" "msin exact_engine = sin" "mcos exact_engine = cos"
  "msqrt exact_engine = sqrt" "mpow2 exact_engine x = Fin (x\<^sup>2)"
  "matan2 exact_engine (Fin a) (Fin b) = Fin (atan2 a b)"
  "maxArgs exact_engine = 65535"
  by (simp_all add: exact_engine_def)

lemma atan2_sin_cos:
  assumes "0 \<le> x" "x < pi / 2"
  shows "atan2 (sin x) (cos x) = x"
proof -
  have c: "0 < cos x" using assms by (intro cos_gt_zero_pi) auto
  have "arctan (sin x / cos x) = arctan (tan x)" by (simp add: tan_def)
  also have "\<dots> = x" using assms by (intro arctan_tan) auto
  finally show ?thesis using c by (simp add: atan2_def)
qed

lemma getDistance_exact_meridian:
  assumes "lng c1 = lng c2" "0 \<le> (lat c2 - lat c1) * Math_PI / 360"
    "(lat c2 - lat c1) * Math_PI / 360 < pi / 2"
  shows "getDistance exact_engine c1 c2 = Fin (6371000 * (2 * ((lat c2 - lat c1) * Math_PI / 360)))"
proof -
  define x where "x = (lat c2 - lat c1) * Math_PI / 360"
  have x0: "0 \<le> x" and x1: "x < pi / 2" using assms by (simp_all add: x_def)
  have s: "0 \<le> sin x" using x0 x1 by (intro sin_ge_zero) auto
  have c: "0 < cos x" using x0 x1 by (intro cos_gt_zero_pi) auto
  have r1: "sqrt ((sin x)\<^sup>2) = sin x" using s by simp
  have e: "1 - (sin x)\<^sup>2 = (cos x)\<^sup>2" by (simp add: cos_squared_eq)
  then have r2: "sqrt (1 - (sin x)\<^sup>2) = cos x" using c by simp
  have n: "\<not> 1 - (sin x)\<^sup>2 < 0" using e by simp
  have "getDistance exact_engine c1 c2 =
          Fin (6371000 * (2 * atan2 (sqrt ((sin x)\<^sup>2)) (sqrt (1 - (sin x)\<^sup>2))))"
    using n by (simp add: getDistance_def Let_def js_sub_def js_atan2_def assms(1) x_def)
  also have "\<dots> = Fin (6371000 * (2 * x))"
    using atan2_sin_cos [OF x0 x1] by (simp only: r1 r2)
  finally show ?thesis by (simp add: x_def)
qed

lemma Math_PI_pos: "0 < Math_PI"
  by (simp add: Math_PI_def)

lemma getDistance_north:
  assumes "0 \<le> m" "m < 6371000"
  shows "getDistance exact_engine origin \<lparr>lat = latitude (north_of_origin m),
           lng = longitude (north_of_origin m), timestamp = t, isManual = b\<rparr> = Fin m"
proof -
  let ?c = "\<lparr>lat = latitude (north_of_origin m),
           lng = longitude (north_of_origin m), timestamp = t, isManual = b\<rparr>"
  have q: "(lat ?c - lat origin) * Math_PI / 360 = m / 12742000"
    using Math_PI_pos by (simp add: origin_def north_of_origin_def)
  have 1: "lng origin = lng ?c" by (simp add: origin_def north_of_origin_def)
  have 2: "0 \<le> (lat ?c - lat origin) * Math_PI / 360" using assms by (simp only: q)
  have "m / 12742000 < 1" using assms by simp
  also have "1 \<le> pi / 2" using pi_ge_two by simp
  finally have 3: "(lat ?c - lat origin) * Math_PI / 360 < pi / 2" by (simp only: q)
  show ?thesis
    using getDistance_exact_meridian [OF 1 2 3] by (simp only: q) simp
qed






text \<open>
  Claim C5. A sample recorded with the manual flag is always appended to the path,
  whatever its distance and time from the last recorded point, and the status message
  reports the dropped marker. The marker button, pressed while recording with a
  non-empty path, records such a sample at the last known position.
\<close>

theorem manual_marker_accepted:
  "recordedPath (recordCoordinate eng now pos True s) =
     recordedPath s @ [\<lparr>lat = latitude pos, lng = longitude pos,
                         timestamp = now, isManual = True\<rparr>] \<and>
   message (recordCoordinate eng now pos True s) = ''Manual marker dropped'' \<and>
   (isRecording s \<longrightarrow> recordedPath s \<noteq> [] \<longrightarrow>
      snd (dropMarker eng now s) = False \<and>
      recordedPath (fst (dropMarker eng now s)) =
        recordedPath s @ [\<lparr>lat = lat (last (recordedPath s)),
                            lng = lng (last (recordedPath s)),
                            timestamp = now, isManual = True\<rparr>])"
  by (simp add: recordCoordinate_def dropMarker_def Let_def)

theorem manual_marker_accepted_witness:
  "getDistance exact_engine origin \<lparr>lat = latitude (north_of_origin 1000),
       lng = longitude (north_of_origin 1000), timestamp = 1, isManual = False\<rparr> = Fin 1000 \<and>
   recordedPath (recordCoordinate exact_engine 1 (north_of_origin 1000) False gps_one)
     = [origin] \<and>
   recordedPath (recordCoordinate exact_engine 1 (north_of_origin 1000) True gps_one) =
     [origin, \<lparr>lat = latitude (north_of_origin 1000), lng = longitude (north_of_origin 1000),
               timestamp = 1, isManual = True\<rparr>] \<and>
   isRecording gps_one \<and> recordedPath gps_one \<noteq> [] \<and>
   recordedPath (fst (dropMarker exact_engine 5 gps_one)) =
     [origin, \<lparr>lat = 0, lng = 0, timestamp = 5, isManual = True\<rparr>]"
proof -
  have d: "getDistance exact_engine origin \<lparr>lat = latitude (north_of_origin 1000),
       lng = longitude (north_of_origin 1000), timestamp = 1, isManual = False\<rparr> = Fin 1000"
    by (rule getDistance_north) simp_all
  have h: "isRecording gps_one" "recordedPath gps_one \<noteq> []" "recordedPath gps_one = [origin]"
    by (simp_all add: gps_one_def)
  have auto_sample:
    "recordedPath (recordCoordinate exact_engine 1 (north_of_origin 1000) False gps_one)
       = [origin]"
    using d h by (simp add: recordCoordinate_def Let_def js_sub_def origin_def)
  from manual_marker_accepted [of exact_engine 1 "north_of_origin 1000" gps_one]
    manual_marker_accepted [of exact_engine 5 "north_of_origin 1000" gps_one] h
  have "recordedPath (recordCoordinate exact_engine 1 (north_of_origin 1000) True gps_one) =
     [origin, \<lparr>lat = latitude (north_of_origin 1000), lng = longitude (north_of_origin 1000),
               timestamp = 1, isManual = True\<rparr>] \<and>
     recordedPath (fst (dropMarker exact_engine 5 gps_one)) =
     [origin, \<lparr>lat = 0, lng = 0, timestamp = 5, isManual = True\<rparr>]"
    by (simp add: origin_def)
  with d h auto_sample show ?thesis by blast
qed

lemma polylines_same_map: "map_v t = map_v s \<Longrightarrow> polylines t = polylines s"
  by (simp add: polylines_def)

lemma polylines_removed:
  assumes "map_v t = map_option (removeLayer i) (map_v s)"
  shows "polylines t = filter (\<lambda>(j, l). j \<noteq> i) (polylines s)"
proof (cases "map_v s")
  case None
  with assms show ?thesis by (simp add: polylines_def)
next
  case (Some m)
  with assms show ?thesis
    by (auto simp: polylines_def removeLayer_def intro: filter_cong)
qed

lemma startTracking_map:
  "\<not> isRecording s \<Longrightarrow>
   map_v (startTracking geo s) =
     (case pathLayer s of None \<Rightarrow> map_v s | Some i \<Rightarrow> map_option (removeLayer i) (map_v s))"
  by (simp add: startTracking_def Let_def split: option.split)

text \<open>
  Claim C9. Starting from the idle state empties the recorded path and forgets the path
  layer, whether or not geolocation is available; the layer that drew the previous path
  is no longer on the map, and when that layer was the only polyline on the map, none
  remains.
\<close>

theorem start_clears_path:
  assumes "\<not> isRecording s"
  shows "recordedPath (startTracking geo s) = [] \<and>
         pathLayer (startTracking geo s) = None \<and>
         (pathLayer s = Some i \<longrightarrow> i \<notin> layer_ids (startTracking geo s)) \<and>
         ((\<forall>(j, l) \<in> set (polylines s). pathLayer s = Some j) \<longrightarrow>
            polylines (startTracking geo s) = []) \<and>
         (geo = Some w \<longrightarrow>
            isRecording (startTracking geo s) \<and> watchId (startTracking geo s) = Some w)"
proof -
  have 1: "recordedPath (startTracking geo s) = []"
    using assms by (simp add: startTracking_def Let_def split: option.split)
  have 2: "pathLayer (startTracking geo s) = None"
    using assms by (simp add: startTracking_def Let_def split: option.split)
  have 3: "pathLayer s = Some i \<longrightarrow> i \<notin> layer_ids (startTracking geo s)"
    using assms
    by (cases "map_v s")
       (auto simp: startTracking_def Let_def layer_ids_def removeLayer_def split: option.split)
  have 4: "(\<forall>(j, l) \<in> set (polylines s). pathLayer s = Some j) \<longrightarrow>
            polylines (startTracking geo s) = []"
  proof
    assume a: "\<forall>(j, l) \<in> set (polylines s). pathLayer s = Some j"
    show "polylines (startTracking geo s) = []"
    proof (cases "pathLayer s")
      case None
      with a have "polylines s = []" by (cases "polylines s") auto
      moreover have "polylines (startTracking geo s) = polylines s"
        using startTracking_map [OF assms, of geo] None by (intro polylines_same_map) simp
      ultimately show ?thesis by simp
    next
      case (Some k)
      have "polylines (startTracking geo s) =
              filter (\<lambda>(j, l). j \<noteq> k) (polylines s)"
        using startTracking_map [OF assms, of geo] Some by (intro polylines_removed) simp
      also have "\<dots> = []" using a Some by (auto simp: filter_empty_conv)
      finally show ?thesis .
    qed
  qed
  have 5: "geo = Some w \<longrightarrow>
            isRecording (startTracking geo s) \<and> watchId (startTracking geo s) = Some w"
    using assms by (simp add: startTracking_def Let_def split: option.split)
  from 1 2 3 4 5 show ?thesis by blast
qed

theorem start_clears_path_witness:
  "\<not> isRecording gps_idle \<and> recordedPath gps_idle = [origin] \<and> pathLayer gps_idle = Some 1 \<and>
   polylines gps_idle = [(1, Polyline [(0, 0)])] \<and>
   recordedPath (startTracking (Some 8) gps_idle) = [] \<and>
   pathLayer (startTracking (Some 8) gps_idle) = None \<and>
   1 \<notin> layer_ids (startTracking (Some 8) gps_idle) \<and>
   polylines (startTracking (Some 8) gps_idle) = [] \<and>
   isRecording (startTracking (Some 8) gps_idle) \<and>
   recordedPath (startTracking None gps_idle) = []"
proof -
  have h: "\<not> isRecording gps_idle" "recordedPath gps_idle = [origin]"
    "pathLayer gps_idle = Some 1" "polylines gps_idle = [(1, Polyline [(0, 0)])]"
    by (simp_all add: gps_idle_def gps_one_def polylines_def)
  have b: "\<forall>(j, l) \<in> set (polylines gps_idle). pathLayer gps_idle = Some j"
    by (simp add: h)
  from start_clears_path [OF h(1), of "Some 8" 1 8] start_clears_path [OF h(1), of None 1 8] h(3) b
  have "recordedPath (startTracking (Some 8) gps_idle) = [] \<and>
   pathLayer (startTracking (Some 8) gps_idle) = None \<and>
   1 \<notin> layer_ids (startTracking (Some 8) gps_idle) \<and>
   polylines (startTracking (Some 8) gps_idle) = [] \<and>
   isRecording (startTracking (Some 8) gps_idle) \<and>
   recordedPath (startTracking None gps_idle) = []"
    by blast
  with h show ?thesis by blast
qed

end
